theory Spec2Isabelle
  imports Complex_Main "HOL-Library.Sublist"
begin

section \<open>Python strings\<close>

text \<open>
  A Python \<open>str\<close> is a sequence of Unicode code points, so it is modelled as a list of
  natural numbers (an Isabelle \<open>char\<close> has only eight bits and could not hold U+202F).
  \<open>ustr\<close> turns an ASCII literal into such a list.
\<close>

type_synonym ustring = "nat list"

definition ustr :: "string \<Rightarrow> ustring" where
  "ustr s = map of_char s"

text \<open>
  \<open>s.replace(src, tgt)\<close> where \<open>src\<close> is a single character, which is the only way the
  program calls it (\<open>regex=False\<close> throughout); \<open>tgt\<close> may be empty.
\<close>

definition str_replace :: "nat \<Rightarrow> ustring \<Rightarrow> ustring \<Rightarrow> ustring" where
  "str_replace src tgt s = concat (map (\<lambda>c. if c = src then tgt else [c]) s)"

text \<open>The code points for which \<open>str.isspace\<close> holds; \<open>str.strip()\<close> removes exactly these.\<close>

definition isspace :: "nat \<Rightarrow> bool" where
  "isspace c \<longleftrightarrow>
     (9 \<le> c \<and> c \<le> 13) \<or> (28 \<le> c \<and> c \<le> 32) \<or> c = 133 \<or> c = 160 \<or> c = 5760 \<or>
     (8192 \<le> c \<and> c \<le> 8202) \<or> c = 8232 \<or> c = 8233 \<or> c = 8239 \<or> c = 8287 \<or> c = 12288"

definition str_strip :: "ustring \<Rightarrow> ustring" where
  "str_strip s = rev (dropWhile isspace (rev (dropWhile isspace s)))"

text \<open>\<open>pat in s\<close>: \<open>pat\<close> occurs in \<open>s\<close> as a contiguous substring.\<close>

fun contains :: "ustring \<Rightarrow> ustring \<Rightarrow> bool" where
  "contains pat [] = (pat = [])"
| "contains pat (c # s) = (prefix pat (c # s) \<or> contains pat s)"

text \<open>\<open>s.find(c)\<close> for a single character: the first index of \<open>c\<close>, or \<open>-1\<close>.\<close>

fun str_find :: "nat \<Rightarrow> ustring \<Rightarrow> int" where
  "str_find c [] = - 1"
| "str_find c (x # xs) =
     (if x = c then 0 else (let r = str_find c xs in if r = - 1 then - 1 else r + 1))"

text \<open>\<open>s[a:b]\<close> for \<open>0 \<le> a\<close> and \<open>0 \<le> b\<close>, the only way the program slices.\<close>

definition slice :: "int \<Rightarrow> int \<Rightarrow> ustring \<Rightarrow> ustring" where
  "slice a b s = take (nat (b - a)) (drop (nat a) s)"

section \<open>Data frames\<close>

text \<open>
  A column of a pandas \<open>DataFrame\<close> has a dtype. \<open>read_csv\<close> yields numeric columns
  (int64, float64, bool; \<open>None\<close> is NaN) and object columns whose entries are a \<open>str\<close> or
  missing. The frame keeps its row labels (\<open>index\<close>) when rows are filtered. Column names
  are taken to be distinct, so that \<open>df[col]\<close> is the column at the position of \<open>col\<close>.
\<close>

datatype cell = NA | Str ustring

datatype 'v column = Numeric "'v option list" | Object "cell list"

record 'v frame =
  index :: "nat list"
  columns :: "(ustring \<times> 'v column) list"

fun col_length :: "'v column \<Rightarrow> nat" where
  "col_length (Numeric xs) = length xs"
| "col_length (Object cs) = length cs"

definition wf_frame :: "'v frame \<Rightarrow> bool" where
  "wf_frame df \<longleftrightarrow> list_all (\<lambda>(n, c). col_length c = length (index df)) (columns df)"

text \<open>Boolean indexing \<open>xs[mask]\<close>: the entries at the positions where the mask is true.\<close>

definition keep :: "bool list \<Rightarrow> 'a list \<Rightarrow> 'a list" where
  "keep msk xs = map snd (filter fst (zip msk xs))"

fun keep_column :: "bool list \<Rightarrow> 'v column \<Rightarrow> 'v column" where
  "keep_column msk (Numeric xs) = Numeric (keep msk xs)"
| "keep_column msk (Object cs) = Object (keep msk cs)"

definition keep_rows :: "bool list \<Rightarrow> 'v frame \<Rightarrow> 'v frame" where
  "keep_rows msk df =
     \<lparr>index = keep msk (index df),
      columns = map (\<lambda>(n, c). (n, keep_column msk c)) (columns df)\<rparr>"

text \<open>
  \<open>astype(str)\<close> on an entry of an object column: a string is itself, a missing entry
  (\<open>pd.NA\<close> after cleaning) becomes the text \<open><NA>\<close>.
\<close>

fun astype_str :: "cell \<Rightarrow> ustring" where
  "astype_str NA = ustr ''<NA>''"
| "astype_str (Str s) = s"

section \<open>Cleaning of object columns\<close>

text \<open>
  \<open>_clean_object_columns\<close>: the three replacements of the dictionary in its order, the
  removal of every double quote (code point 34), \<open>strip\<close>, then missing entries stay
  missing and the empty string becomes missing.
\<close>

definition replacements :: "(nat \<times> ustring) list" where
  "replacements = [(8239, [32]), (160, [32]), (9, [32])]"

definition clean_text :: "ustring \<Rightarrow> ustring" where
  "clean_text s =
     str_strip (str_replace 34 []
       (foldl (\<lambda>cleaned (src, tgt). str_replace src tgt cleaned) s replacements))"

fun clean_cell :: "cell \<Rightarrow> cell" where
  "clean_cell NA = NA"
| "clean_cell (Str s) = (let cleaned = clean_text s in if cleaned = [] then NA else Str cleaned)"

fun clean_column :: "'v column \<Rightarrow> 'v column" where
  "clean_column (Object cs) = Object (map clean_cell cs)"
| "clean_column (Numeric xs) = Numeric xs"

definition clean_object_columns :: "'v frame \<Rightarrow> 'v frame" where
  "clean_object_columns df =
     df\<lparr>columns := map (\<lambda>(n, c). (n, clean_column c)) (columns df)\<rparr>"

section \<open>Numeric coercion\<close>

text \<open>
  \<open>_coerce_numeric\<close>. \<open>pd.to_numeric(_, errors="coerce")\<close> is the parameter \<open>to_numeric\<close>
  on the text of an entry (\<open>None\<close> is NaN); on a column that has a numeric dtype it returns
  the values as they are.
\<close>

fun coerce_numeric :: "(ustring \<Rightarrow> 'v option) \<Rightarrow> 'v column \<Rightarrow> 'v option list" where
  "coerce_numeric to_numeric (Numeric xs) = xs"
| "coerce_numeric to_numeric (Object cs) =
     map (\<lambda>c. to_numeric (str_replace 44 [46] (str_replace 46 [] (astype_str c)))) cs"

text \<open>\<open>(coerced > 0).any()\<close>; a comparison with NaN is false.\<close>

definition any_positive :: "('v::{zero,ord}) option list \<Rightarrow> bool" where
  "any_positive coerced = list_ex (\<lambda>v. case v of None \<Rightarrow> False | Some x \<Rightarrow> 0 < x) coerced"

section \<open>Loading\<close>

datatype encoding = Utf8Sig | Cp1252

text \<open>
  The three \<open>RuntimeError\<close>s of \<open>load_csv\<close>, told apart by their messages:
  \<open>Konnte CSV nicht lesen: ...\<close> with the last exception of \<open>read_csv\<close>,
  \<open>Spalte "Datum" fehlt in der CSV.\<close> and \<open>Keine Spalten mit Werten > 0,00 gefunden.\<close>
\<close>

datatype 'x error = IngestionError "'x option" | SchemaError | DataError

text \<open>The table \<open>load_csv\<close> returns: the parsed dates and the surviving numeric columns.\<close>

record ('d, 'v) table =
  rows :: "nat list"
  datum :: "'d list"
  series :: "(ustring \<times> 'v option list) list"

definition header_index :: "int \<Rightarrow> int" where
  "header_index header_row = max 0 (header_row - 1)"

text \<open>The loop over the encodings: the first frame that is read, or the last exception.\<close>

fun read_first :: "(encoding \<Rightarrow> 'x + 'v frame) \<Rightarrow> encoding list \<Rightarrow> 'x option \<Rightarrow> 'x option + 'v frame" where
  "read_first rd [] last_err = Inl last_err"
| "read_first rd (enc # encs) last_err =
     (case rd enc of Inr df \<Rightarrow> Inr df | Inl exc \<Rightarrow> read_first rd encs (Some exc))"

definition strip_column_names :: "'v frame \<Rightarrow> 'v frame" where
  "strip_column_names df = df\<lparr>columns := map (\<lambda>(n, c). (str_strip n, c)) (columns df)\<rparr>"

definition marker :: ustring where
  "marker = ustr ''Definition:''"

text \<open>
  One column of \<open>definition_mask\<close>. The text of a number never contains the marker.
\<close>

fun column_mask :: "'v column \<Rightarrow> bool list" where
  "column_mask (Object cs) = map (\<lambda>c. contains marker (astype_str c)) cs"
| "column_mask (Numeric xs) = map (\<lambda>x. False) xs"

text \<open>\<open>mask.any(axis=1)\<close> for a frame of \<open>n\<close> rows.\<close>

definition any_axis1 :: "bool list list \<Rightarrow> nat \<Rightarrow> bool list" where
  "any_axis1 masks n = foldr (\<lambda>m acc. map2 (\<or>) m acc) masks (replicate n False)"

definition definition_rows :: "'v frame \<Rightarrow> bool list" where
  "definition_rows df = any_axis1 (map (\<lambda>(n, c). column_mask c) (columns df)) (length (index df))"

definition drop_definition_rows :: "'v frame \<Rightarrow> 'v frame" where
  "drop_definition_rows df =
     (if list_ex (\<lambda>(n, c). list_ex id (column_mask c)) (columns df)
      then keep_rows (map Not (definition_rows df)) df
      else df)"

definition Datum :: ustring where
  "Datum = ustr ''Datum''"

text \<open>
  The loop that coerces every column but \<open>Datum\<close> and collects \<open>numeric_cols\<close>. It takes
  \<open>df[col]\<close> to be the one column at the position of \<open>col\<close>, which is what it is when the
  stripped names are distinct. When two names coincide after stripping, \<open>df[col]\<close> is a
  \<open>DataFrame\<close> and line 35 raises \<open>AttributeError\<close>: such frames are outside this model,
  and the theorems on which columns survive and on the errors of loading assume distinct
  names.
\<close>

fun numeric_cols ::
  "(ustring \<Rightarrow> 'v option) \<Rightarrow> (ustring \<times> ('v::{zero,ord}) column) list \<Rightarrow> (ustring \<times> 'v option list) list" where
  "numeric_cols to_numeric [] = []"
| "numeric_cols to_numeric ((col, c) # cs) =
     (if col = Datum then numeric_cols to_numeric cs
      else (let coerced = coerce_numeric to_numeric c
            in if any_positive coerced then (col, coerced) # numeric_cols to_numeric cs
               else numeric_cols to_numeric cs))"

text \<open>Lines 82 to 90: names stripped, object columns cleaned, annotation rows dropped.\<close>

definition normalize_frame :: "'v frame \<Rightarrow> 'v frame" where
  "normalize_frame df = drop_definition_rows (clean_object_columns (strip_column_names df))"

text \<open>
  Lines 92 to 96. \<open>pd.to_datetime(_, dayfirst=True, errors="coerce")\<close> is the parameter
  \<open>to_datetime\<close> on a column (\<open>None\<close> is NaT); \<open>dropna\<close> keeps the rows with a date.
  \<open>df["Datum"]\<close> is the one column of that name; with two columns named \<open>Datum\<close> after
  stripping it is a \<open>DataFrame\<close>, on which \<open>pd.to_datetime\<close> raises, and the frame is
  outside this model.
\<close>

definition valid_dates :: "'d option list \<Rightarrow> bool list" where
  "valid_dates parsed = map (\<lambda>d. d \<noteq> None) parsed"

definition parse_datum ::
  "('v column \<Rightarrow> 'd option list) \<Rightarrow> 'v frame \<Rightarrow> 'x error + ('d list \<times> 'v frame)" where
  "parse_datum to_datetime df =
     (case map_of (columns df) Datum of
        None \<Rightarrow> Inl SchemaError
      | Some c \<Rightarrow>
          (let parsed = to_datetime c
           in Inr (map the (keep (valid_dates parsed) parsed), keep_rows (valid_dates parsed) df)))"

text \<open>\<open>load_csv\<close> from the frame that \<open>read_csv\<close> returned.\<close>

definition load_frame ::
  "('v column \<Rightarrow> 'd option list) \<Rightarrow> (ustring \<Rightarrow> 'v option) \<Rightarrow> ('v::{zero,ord}) frame
     \<Rightarrow> 'x error + ('d, 'v) table" where
  "load_frame to_datetime to_numeric df =
     (case parse_datum to_datetime (normalize_frame df) of
        Inl e \<Rightarrow> Inl e
      | Inr (dates, df') \<Rightarrow>
          (let cols = numeric_cols to_numeric (columns df')
           in if cols = [] then Inl DataError
              else Inr \<lparr>rows = index df', datum = dates, series = cols\<rparr>))"

definition load_csv ::
  "('p \<Rightarrow> encoding \<Rightarrow> int \<Rightarrow> 'x + 'v frame) \<Rightarrow> ('v column \<Rightarrow> 'd option list) \<Rightarrow> (ustring \<Rightarrow> 'v option)
     \<Rightarrow> 'p \<Rightarrow> int \<Rightarrow> 'x error + ('d, ('v::{zero,ord})) table" where
  "load_csv read_csv to_datetime to_numeric csv_path header_row =
     (case read_first (\<lambda>enc. read_csv csv_path enc (header_index header_row)) [Utf8Sig, Cp1252] None of
        Inl last_err \<Rightarrow> Inl (IngestionError last_err)
      | Inr df \<Rightarrow> load_frame to_datetime to_numeric df)"

section \<open>Figures\<close>

definition infer_units :: "ustring \<Rightarrow> ustring" where
  "infer_units column_name =
     (let start = str_find 40 column_name; stop = str_find 41 column_name
      in if start \<noteq> - 1 \<and> stop \<noteq> - 1 \<and> stop > start
         then slice (start + 1) stop column_name
         else [])"

record ('d, 'v) figure =
  trace_x :: "'d list"
  trace_y :: "'v option list"
  trace_name :: ustring
  title :: ustring
  xaxis_title :: ustring
  yaxis_title :: ustring

text \<open>\<open>units or "Wert"\<close>: the empty string is falsy.\<close>

definition y_label :: "ustring \<Rightarrow> ustring" where
  "y_label col = (let units = infer_units col in if units \<noteq> [] then units else ustr ''Wert'')"

definition build_figures :: "('d, 'v) table \<Rightarrow> ('d, 'v) figure list" where
  "build_figures df =
     map (\<lambda>(col, ys).
            \<lparr>trace_x = datum df, trace_y = ys, trace_name = col,
             title = col, xaxis_title = Datum, yaxis_title = y_label col\<rparr>)
         (filter (\<lambda>(col, ys). col \<noteq> Datum) (series df))"

section \<open>Sample parsers\<close>

text \<open>
  Two small instances of the parameters \<open>to_numeric\<close> and \<open>to_datetime\<close>, used to run the
  model on concrete tables: plain decimal literals (an optional minus sign, digits, an
  optional point and digits) read as rationals, and day-first dates written
  \<open>dd.mm.yyyy\<close> in a text column, accepted when the day exists in the calendar and the
  year lies within the range of a pandas timestamp. A number in a numeric column is read as
  nanoseconds since the epoch, as \<open>pd.to_datetime\<close> does; NaN is NaT. The general theorems
  are stated for every parser.
\<close>

datatype stamp = Day nat nat nat | EpochNs rat

definition digit :: "nat \<Rightarrow> nat option" where
  "digit c = (if 48 \<le> c \<and> c \<le> 57 then Some (c - 48) else None)"

fun digits :: "ustring \<Rightarrow> nat \<Rightarrow> nat option" where
  "digits [] acc = Some acc"
| "digits (c # cs) acc = (case digit c of None \<Rightarrow> None | Some d \<Rightarrow> digits cs (10 * acc + d))"

definition unsigned_literal :: "ustring \<Rightarrow> rat option" where
  "unsigned_literal s =
     (let whole = takeWhile (\<lambda>c. c \<noteq> 46) s; frac = drop 1 (dropWhile (\<lambda>c. c \<noteq> 46) s)
      in if whole = [] then None
         else (case digits whole 0 of
                 None \<Rightarrow> None
               | Some i \<Rightarrow>
                   (case digits frac 0 of
                      None \<Rightarrow> None
                    | Some f \<Rightarrow> Some (of_nat i + of_nat f / 10 ^ length frac))))"

fun sample_to_numeric :: "ustring \<Rightarrow> rat option" where
  "sample_to_numeric [] = None"
| "sample_to_numeric (c # s) =
     (if c = 45 then map_option uminus (unsigned_literal s) else unsigned_literal (c # s))"

definition leap_year :: "nat \<Rightarrow> bool" where
  "leap_year y \<longleftrightarrow> (y mod 4 = 0 \<and> y mod 100 \<noteq> 0) \<or> y mod 400 = 0"

definition days_in_month :: "nat \<Rightarrow> nat \<Rightarrow> nat" where
  "days_in_month y m =
     (if m = 2 then (if leap_year y then 29 else 28)
      else if m = 4 \<or> m = 6 \<or> m = 9 \<or> m = 11 then 30
      else 31)"

definition dayfirst_date :: "ustring \<Rightarrow> stamp option" where
  "dayfirst_date s =
     (if length s = 10 \<and> s ! 2 = 46 \<and> s ! 5 = 46
      then (case (digits (take 2 s) 0, digits (take 2 (drop 3 s)) 0, digits (drop 6 s) 0) of
              (Some d, Some m, Some y) \<Rightarrow>
                 if 1 \<le> m \<and> m \<le> 12 \<and> 1 \<le> d \<and> d \<le> days_in_month y m \<and> 1678 \<le> y \<and> y \<le> 2261
                 then Some (Day y m d) else None
            | _ \<Rightarrow> None)
      else None)"

fun sample_to_datetime :: "rat column \<Rightarrow> stamp option list" where
  "sample_to_datetime (Object cs) = map (\<lambda>c. case c of NA \<Rightarrow> None | Str s \<Rightarrow> dayfirst_date s) cs"
| "sample_to_datetime (Numeric xs) = map (map_option EpochNs) xs"

section \<open>Example tables\<close>

text \<open>
  Frames as \<open>read_csv\<close> returns them. \<open>scenario_A\<close>: three dated rows of one numeric
  column. \<open>scenario_B\<close>: one column holding only \<open>0,00\<close>, \<open>-1,00\<close> and an empty cell, which
  \<open>read_csv\<close> with \<open>decimal=","\<close> reads as the numbers 0, -1 and NaN. \<open>undated\<close>: no cell
  of \<open>Datum\<close> is a date. \<open>annotated\<close>: an export whose first
  row is an annotation, with a row that has no date, a name with trailing blanks, a status
  column, and a column that is never positive.
\<close>

definition scenario_A :: "rat frame" where
  "scenario_A =
     \<lparr>index = [0, 1, 2],
      columns =
        [(ustr ''Datum'',
            Object [Str (ustr ''01.01.2024''), Str (ustr ''02.01.2024''), Str (ustr ''03.01.2024'')]),
         (ustr ''Leistung (kW)'', Numeric [Some 1, Some (5 / 2), Some 0])]\<rparr>"

definition scenario_B :: "rat frame" where
  "scenario_B =
     \<lparr>index = [0, 1, 2],
      columns =
        [(ustr ''Datum'',
            Object [Str (ustr ''01.01.2024''), Str (ustr ''02.01.2024''), Str (ustr ''03.01.2024'')]),
         (ustr ''Ertrag'', Numeric [Some 0, Some (- 1), None])]\<rparr>"

definition undated :: "rat frame" where
  "undated =
     \<lparr>index = [0, 1],
      columns =
        [(ustr ''Datum'', Object [Str (ustr ''kein Datum''), Str (ustr ''unbekannt'')]),
         (ustr ''Leistung (kW)'', Numeric [Some 1, Some 2])]\<rparr>"

definition annotated :: "rat frame" where
  "annotated =
     \<lparr>index = [0, 1, 2, 3],
      columns =
        [(ustr ''Datum'',
            Object [Str (ustr ''Definition: Messwerte''), Str (ustr ''01.01.2024''),
                    Str (ustr ''kein Datum''), Str (ustr ''03.01.2024'')]),
         (ustr ''Leistung (kW)  '',
            Object [NA, Str (ustr ''1.234,56''), Str (ustr ''5,00''), Str (ustr ''0,00'')]),
         (ustr ''Status'',
            Object [NA, Str (ustr ''ok''), Str (ustr ''ok''), Str (9 # ustr ''ok'' @ [34])]),
         (ustr ''Ertrag'',
            Object [NA, Str (ustr ''0,00''), Str (ustr ''7,00''), NA])]\<rparr>"

text \<open>
  A reader for the examples: the file is given by the frame its text parses to under
  cp1252 with the header at index 0; utf-8-sig and every other header index fail.
\<close>

definition sample_read_csv :: "rat frame \<Rightarrow> encoding \<Rightarrow> int \<Rightarrow> unit + rat frame" where
  "sample_read_csv csv enc header = (if enc = Cp1252 \<and> header = 0 then Inr csv else Inl ())"

section \<open>Evaluation and string lemmas\<close>

lemmas run_defs =
  ustr_def str_replace_def str_strip_def isspace_def keep_def keep_rows_def
  replacements_def clean_text_def clean_object_columns_def any_positive_def header_index_def
  strip_column_names_def marker_def any_axis1_def definition_rows_def drop_definition_rows_def
  Datum_def normalize_frame_def valid_dates_def parse_datum_def load_frame_def load_csv_def
  digit_def unsigned_literal_def dayfirst_date_def leap_year_def days_in_month_def
  sample_read_csv_def
  infer_units_def y_label_def build_figures_def slice_def wf_frame_def

lemma str_replace_filter: "str_replace c [] s = filter (\<lambda>x. x \<noteq> c) s"
  by (induction s) (simp_all add: str_replace_def)

lemma str_replace_map: "str_replace c [t] s = map (\<lambda>x. if x = c then t else x) s"
  by (induction s) (simp_all add: str_replace_def)

lemma clean_text_one_pass:
  "clean_text s =
     str_strip (filter (\<lambda>c. c \<noteq> 34) (map (\<lambda>c. if c = 8239 \<or> c = 160 \<or> c = 9 then 32 else c) s))"
proof -
  have "map (\<lambda>x. if x = 9 then 32 else x)
          (map (\<lambda>x. if x = 160 then 32 else x) (map (\<lambda>x. if x = 8239 then 32 else x) s))
        = map (\<lambda>c. if c = 8239 \<or> c = 160 \<or> c = 9 then 32 else c) s"
    by simp
  then show ?thesis
    by (simp only: clean_text_def replacements_def foldl_Cons foldl_Nil prod.case
          str_replace_filter str_replace_map)
qed

lemma set_str_strip: "set (str_strip s) \<subseteq> set s"
proof -
  have "set (dropWhile isspace (rev (dropWhile isspace s))) \<subseteq> set (rev (dropWhile isspace s))"
    by (meson set_dropWhileD subsetI)
  also have "\<dots> \<subseteq> set s"
    using set_dropWhileD by fastforce
  finally show ?thesis by (simp add: str_strip_def)
qed

lemma str_strip_ends:
  assumes "str_strip s \<noteq> []"
  shows "\<not> isspace (hd (str_strip s)) \<and> \<not> isspace (last (str_strip s))"
proof -
  define y where "y = dropWhile isspace s"
  define z where "z = dropWhile isspace (rev y)"
  have st: "str_strip s = rev z" by (simp add: str_strip_def y_def z_def)
  with assms have z: "z \<noteq> []" by simp
  then have "\<not> isspace (hd z)" unfolding z_def by (rule hd_dropWhile)
  then have l: "\<not> isspace (last (str_strip s))" using z by (simp add: st last_rev)
  obtain p where p: "rev y = p @ z"
    unfolding z_def by (metis takeWhile_dropWhile_id)
  then have y: "y = rev z @ rev p" by (metis rev_append rev_rev_ident)
  from z have "hd y = hd (rev z)" by (simp add: y)
  moreover have "y \<noteq> []" using y z by simp
  then have "\<not> isspace (hd y)" unfolding y_def by (rule hd_dropWhile)
  ultimately show ?thesis using l by (simp add: st)
qed

lemma str_find_absent: "c \<notin> set s \<Longrightarrow> str_find c s = - 1"
  by (induction s) auto

lemma str_find_first: "c \<notin> set pre \<Longrightarrow> str_find c (pre @ c # post) = int (length pre)"
  by (induction pre) (auto simp: Let_def)

lemma infer_units_enclosed:
  assumes "40 \<notin> set pre" "41 \<notin> set pre" "41 \<notin> set u"
  shows "infer_units (pre @ [40] @ u @ [41] @ post) = u"
proof -
  have s: "str_find 40 (pre @ [40] @ u @ [41] @ post) = int (length pre)"
    using assms(1) str_find_first [of 40 pre "u @ [41] @ post"] by simp
  have "41 \<notin> set (pre @ [40] @ u)" using assms by simp
  then have "str_find 41 ((pre @ [40] @ u) @ 41 # post) = int (length (pre @ [40] @ u))"
    by (rule str_find_first)
  then have e: "str_find 41 (pre @ [40] @ u @ [41] @ post) = int (length pre) + 1 + int (length u)"
    by simp
  show ?thesis
    by (simp add: infer_units_def s e slice_def del: append.simps)
qed

lemma infer_units_none: "40 \<notin> set name \<or> 41 \<notin> set name \<Longrightarrow> infer_units name = []"
  by (auto simp: infer_units_def Let_def str_find_absent)

lemma cleaned_chars:
  assumes "x \<in> set (str_strip (filter (\<lambda>c. c \<noteq> 34)
              (map (\<lambda>c. if c = 8239 \<or> c = 160 \<or> c = 9 then 32 else c) s)))"
  shows "x \<noteq> 34 \<and> x \<noteq> 9 \<and> x \<noteq> 160 \<and> x \<noteq> 8239"
proof -
  define f :: "nat \<Rightarrow> nat" where "f = (\<lambda>c. if c = 8239 \<or> c = 160 \<or> c = 9 then 32 else c)"
  have fr: "f c \<noteq> 9 \<and> f c \<noteq> 160 \<and> f c \<noteq> 8239" for c
    by (simp add: f_def)
  from assms have "x \<in> set (str_strip (filter (\<lambda>c. c \<noteq> 34) (map f s)))"
    by (simp only: f_def)
  with set_str_strip have "x \<in> set (filter (\<lambda>c. c \<noteq> 34) (map f s))"
    by blast
  then obtain c where "x = f c" "x \<noteq> 34"
    by auto
  then show ?thesis using fr [of c] by simp
qed

section \<open>Header row\<close>

text \<open>
  C9. For every \<open>header_row \<le> 1\<close>, zero and negative values included, the header index
  handed to \<open>read_csv\<close> is 0 and \<open>load_csv\<close> returns exactly what it returns for
  \<open>header_row = 1\<close>; the value is not validated and raises nothing of its own.
\<close>

theorem load_csv_header_row_clamped:
  "header_row \<le> 1 \<Longrightarrow>
     header_index header_row = 0 \<and>
     load_csv read_csv to_datetime to_numeric csv_path header_row =
       load_csv read_csv to_datetime to_numeric csv_path 1"
  by (simp add: load_csv_def header_index_def)

theorem load_csv_header_row_clamped_witness:
  "(- 3 :: int) \<le> 1 \<and> header_index (- 3) = 0 \<and>
   load_csv sample_read_csv sample_to_datetime sample_to_numeric scenario_A (- 3) =
     (load_csv sample_read_csv sample_to_datetime sample_to_numeric scenario_A 1
        :: unit error + (stamp, rat) table)"
  using load_csv_header_row_clamped
          [of "- 3" sample_read_csv sample_to_datetime sample_to_numeric scenario_A]
  by simp

section \<open>Numeric coercion of text\<close>

text \<open>
  C10. For a column that has no numeric dtype, the text handed to the number parser is the
  cell text with every \<open>.\<close> deleted first and every \<open>,\<close> turned into \<open>.\<close> afterwards. So the
  cell \<open>1234.56\<close> is parsed as the text \<open>123456\<close>, which is the number 123456 and not
  1234.56.
\<close>

theorem coerce_numeric_deletes_dots_first:
  "coerce_numeric to_numeric (Object cs) =
     map (\<lambda>c. to_numeric
            (map (\<lambda>x. if x = 44 then 46 else x) (filter (\<lambda>x. x \<noteq> 46) (astype_str c)))) cs
   \<and> coerce_numeric to_numeric (Object [Str (ustr ''1234.56'')]) = [to_numeric (ustr ''123456'')]
   \<and> coerce_numeric sample_to_numeric (Object [Str (ustr ''1234.56'')]) = [Some 123456]"
  by (simp add: str_replace_filter str_replace_map ustr_def unsigned_literal_def digit_def)

text \<open>
  C4. The text \<open>1.234,56\<close> is parsed as the text \<open>1234.56\<close>, the number 1234.56; a column
  that is numeric already is returned as it is, so coercing a coerced column changes
  nothing.
\<close>

theorem coerce_numeric_locale_roundtrip:
  "coerce_numeric to_numeric (Object [Str (ustr ''1.234,56'')]) = [to_numeric (ustr ''1234.56'')]
   \<and> coerce_numeric sample_to_numeric (Object [Str (ustr ''1.234,56'')]) = [Some (123456 / 100)]
   \<and> coerce_numeric to_numeric (Numeric xs) = xs
   \<and> coerce_numeric to_numeric (Numeric (coerce_numeric to_numeric c)) = coerce_numeric to_numeric c"
  by (simp add: str_replace_filter str_replace_map ustr_def unsigned_literal_def digit_def)

section \<open>Cleaning of text cells\<close>

text \<open>
  C6, as the claim states it, fails: a double quote inside the text is deleted too, the
  text \<open>a"b\<close> becomes \<open>ab\<close>.
\<close>

theorem clean_cell_interior_quote:
  "clean_cell (Str (ustr ''a'' @ [34] @ ustr ''b'')) = Str (ustr ''ab'')"
  by (simp add: clean_text_one_pass ustr_def str_strip_def isspace_def)

text \<open>
  C6, amended. Cleaning a text cell turns narrow no-break space, no-break space and tab
  into a plain space, deletes every double quote wherever it stands, and trims white space
  at both ends; an empty result is a missing value. A cleaned text is never empty, holds
  no double quote, tab or no-break space, and neither starts nor ends with white space.
  The text \<open>0\<close> stays the text \<open>0\<close>, and a missing value stays missing.
\<close>

theorem clean_cell_text:
  "clean_cell (Str s) =
     (let t = str_strip (filter (\<lambda>c. c \<noteq> 34)
                (map (\<lambda>c. if c = 8239 \<or> c = 160 \<or> c = 9 then 32 else c) s))
      in if t = [] then NA else Str t)
   \<and> (\<forall>t. clean_cell (Str s) = Str t \<longrightarrow>
          t \<noteq> [] \<and> 34 \<notin> set t \<and> 9 \<notin> set t \<and> 160 \<notin> set t \<and> 8239 \<notin> set t \<and>
          \<not> isspace (hd t) \<and> \<not> isspace (last t))
   \<and> clean_cell (Str (ustr ''0'')) = Str (ustr ''0'')
   \<and> clean_cell (Str []) = NA
   \<and> clean_cell NA = NA"
proof -
  define u where "u = str_strip (filter (\<lambda>c. c \<noteq> 34)
              (map (\<lambda>c. if c = 8239 \<or> c = 160 \<or> c = 9 then 32 else c) s))"
  have ct: "clean_text s = u"
    unfolding u_def by (rule clean_text_one_pass)
  have a: "clean_cell (Str s) = (let t = u in if t = [] then NA else Str t)"
    by (simp add: ct)
  have mem: "34 \<notin> set u \<and> 9 \<notin> set u \<and> 160 \<notin> set u \<and> 8239 \<notin> set u"
    using cleaned_chars [of _ s] unfolding u_def by blast
  have b: "\<forall>t. clean_cell (Str s) = Str t \<longrightarrow>
          t \<noteq> [] \<and> 34 \<notin> set t \<and> 9 \<notin> set t \<and> 160 \<notin> set t \<and> 8239 \<notin> set t \<and>
          \<not> isspace (hd t) \<and> \<not> isspace (last t)"
  proof (intro allI impI)
    fix t assume "clean_cell (Str s) = Str t"
    then have t: "t = u" "u \<noteq> []"
      by (auto simp: ct Let_def split: if_splits)
    have "\<not> isspace (hd u) \<and> \<not> isspace (last u)"
      using t(2) str_strip_ends unfolding u_def by blast
    then show "t \<noteq> [] \<and> 34 \<notin> set t \<and> 9 \<notin> set t \<and> 160 \<notin> set t \<and> 8239 \<notin> set t \<and>
          \<not> isspace (hd t) \<and> \<not> isspace (last t)"
      using mem t by simp
  qed
  have c: "clean_cell (Str (ustr ''0'')) = Str (ustr ''0'')"
    by (simp add: clean_text_one_pass ustr_def str_strip_def isspace_def)
  have d: "clean_cell (Str []) = NA"
    by (simp add: clean_text_one_pass str_strip_def)
  have e: "clean_cell NA = NA" by simp
  from a b c d e show ?thesis unfolding u_def by blast
qed

theorem clean_cell_text_witness:
  "clean_cell (Str ([9, 34] @ ustr ''a'' @ [8239] @ ustr ''b'' @ [34, 32])) = Str (ustr ''a b'')
   \<and> ustr ''a b'' \<noteq> [] \<and> 34 \<notin> set (ustr ''a b'') \<and> 9 \<notin> set (ustr ''a b'')
   \<and> \<not> isspace (hd (ustr ''a b'')) \<and> \<not> isspace (last (ustr ''a b''))"
proof -
  have v: "clean_cell (Str ([9, 34] @ ustr ''a'' @ [8239] @ ustr ''b'' @ [34, 32])) = Str (ustr ''a b'')"
    by (simp add: clean_text_one_pass ustr_def str_strip_def isspace_def)
  have "\<forall>t. clean_cell (Str ([9, 34] @ ustr ''a'' @ [8239] @ ustr ''b'' @ [34, 32])) = Str t \<longrightarrow>
          t \<noteq> [] \<and> 34 \<notin> set t \<and> 9 \<notin> set t \<and> 160 \<notin> set t \<and> 8239 \<notin> set t \<and>
          \<not> isspace (hd t) \<and> \<not> isspace (last t)"
    using clean_cell_text [of "[9, 34] @ ustr ''a'' @ [8239] @ ustr ''b'' @ [34, 32]"] by blast
  with v show ?thesis by blast
qed

section \<open>Unit labels\<close>

text \<open>
  C7, as the claim states it, fails: the name \<open>P ()\<close> has a parenthesized substring whose
  enclosed text is empty, and the label of its chart is the placeholder \<open>Wert\<close>, not the
  enclosed text.
\<close>

theorem empty_parentheses_get_placeholder:
  "ustr ''P ()'' = ustr ''P '' @ [40] @ [] @ [41] \<and> y_label (ustr ''P ()'') \<noteq> []
   \<and> y_label (ustr ''P ()'') = ustr ''Wert''"
  by (simp add: y_label_def infer_units_def slice_def ustr_def)

text \<open>
  C7, amended. Every chart carries its column name as title and \<open>y_label\<close> of that name
  as y-axis label. When the first \<open>(\<close> of the name stands before its first \<open>)\<close> and the text
  between the two is not empty, that text is the label; when that text is empty, or the
  name has no \<open>(\<close> or no \<open>)\<close>, the label is the placeholder \<open>Wert\<close>.
\<close>

theorem unit_label_of_column:
  "map (\<lambda>f. (title f, yaxis_title f)) (build_figures df) =
     map (\<lambda>(col, ys). (col, y_label col)) (filter (\<lambda>(col, ys). col \<noteq> Datum) (series df))
   \<and> (40 \<notin> set pre \<and> 41 \<notin> set pre \<and> 41 \<notin> set u \<and> u \<noteq> [] \<longrightarrow>
        y_label (pre @ [40] @ u @ [41] @ post) = u)
   \<and> (40 \<notin> set pre \<and> 41 \<notin> set pre \<longrightarrow> y_label (pre @ [40] @ [41] @ post) = ustr ''Wert'')
   \<and> (40 \<notin> set name \<or> 41 \<notin> set name \<longrightarrow> y_label name = ustr ''Wert'')"
proof -
  have a: "map (\<lambda>f. (title f, yaxis_title f)) (build_figures df) =
     map (\<lambda>(col, ys). (col, y_label col)) (filter (\<lambda>(col, ys). col \<noteq> Datum) (series df))"
    by (simp add: build_figures_def case_prod_unfold)
  have b: "40 \<notin> set pre \<and> 41 \<notin> set pre \<and> 41 \<notin> set u \<and> u \<noteq> [] \<longrightarrow>
        y_label (pre @ [40] @ u @ [41] @ post) = u"
    using infer_units_enclosed [of pre u post] by (simp add: y_label_def)
  have c: "40 \<notin> set pre \<and> 41 \<notin> set pre \<longrightarrow> y_label (pre @ [40] @ [41] @ post) = ustr ''Wert''"
    using infer_units_enclosed [of pre "[]" post] by (simp add: y_label_def)
  have d: "40 \<notin> set name \<or> 41 \<notin> set name \<longrightarrow> y_label name = ustr ''Wert''"
    using infer_units_none [of name] by (auto simp: y_label_def)
  show ?thesis using a b c d by blast
qed

theorem unit_label_of_column_witness:
  "40 \<notin> set (ustr ''Leistung '') \<and> 41 \<notin> set (ustr ''Leistung '') \<and> 41 \<notin> set (ustr ''kW'')
   \<and> ustr ''kW'' \<noteq> [] \<and> 40 \<notin> set (ustr ''Status'')
   \<and> y_label (ustr ''Leistung '' @ [40] @ ustr ''kW'' @ [41] @ []) = ustr ''kW''
   \<and> y_label (ustr ''Leistung '' @ [40] @ [41] @ []) = ustr ''Wert''
   \<and> y_label (ustr ''Status'') = ustr ''Wert''
   \<and> map (\<lambda>f. (title f, yaxis_title f))
        (build_figures \<lparr>rows = [0], datum = [(2024 :: nat, 1 :: nat, 1 :: nat)],
                        series = [(ustr ''Status'', [Some (1 :: rat)])]\<rparr>)
       = [(ustr ''Status'', ustr ''Wert'')]"
proof -
  have h: "40 \<notin> set (ustr ''Leistung '') \<and> 41 \<notin> set (ustr ''Leistung '') \<and> 41 \<notin> set (ustr ''kW'')
     \<and> ustr ''kW'' \<noteq> [] \<and> 40 \<notin> set (ustr ''Status'')"
    by (simp add: ustr_def)
  have d: "ustr ''Status'' \<noteq> Datum"
    by (simp add: ustr_def Datum_def)
  show ?thesis
    using h d unit_label_of_column
      [of "\<lparr>rows = [0], datum = [(2024 :: nat, 1 :: nat, 1 :: nat)],
            series = [(ustr ''Status'', [Some (1 :: rat)])]\<rparr>"
          "ustr ''Leistung ''" "ustr ''kW''" "[]" "ustr ''Status''"]
    by simp
qed

section \<open>Columns that survive\<close>

lemma any_positive_iff: "any_positive xs \<longleftrightarrow> (\<exists>x. Some x \<in> set xs \<and> 0 < x)"
  by (auto simp: any_positive_def list_ex_iff split: option.splits)

lemma numeric_cols_set:
  "set (numeric_cols tn cs) =
     {(col, coerce_numeric tn c) | col c.
        (col, c) \<in> set cs \<and> col \<noteq> Datum \<and> any_positive (coerce_numeric tn c)}"
proof (induction cs)
  case Nil
  show ?case by simp
next
  case (Cons p cs)
  obtain a b where p: "p = (a, b)" by (cases p)
  show ?case
  proof (cases "a \<noteq> Datum \<and> any_positive (coerce_numeric tn b)")
    case True
    then have "numeric_cols tn (p # cs) = (a, coerce_numeric tn b) # numeric_cols tn cs"
      by (simp add: p)
    with True Cons.IH show ?thesis by (auto simp: p)
  next
    case False
    then have "numeric_cols tn (p # cs) = numeric_cols tn cs"
      by (auto simp: p)
    with False Cons.IH show ?thesis by (auto simp: p)
  qed
qed

lemma numeric_cols_empty:
  "numeric_cols tn cs = [] \<longleftrightarrow>
     (\<forall>(col, c) \<in> set cs. col \<noteq> Datum \<longrightarrow> \<not> any_positive (coerce_numeric tn c))"
proof -
  have "numeric_cols tn cs = [] \<longleftrightarrow> set (numeric_cols tn cs) = {}" by simp
  also have "\<dots> \<longleftrightarrow> (\<forall>(col, c) \<in> set cs. col \<noteq> Datum \<longrightarrow> \<not> any_positive (coerce_numeric tn c))"
    unfolding numeric_cols_set by auto
  finally show ?thesis .
qed

lemma numeric_cols_no_datum: "(col, ys) \<in> set (numeric_cols tn cs) \<Longrightarrow> col \<noteq> Datum"
  unfolding numeric_cols_set by auto

lemma numeric_cols_member:
  assumes "distinct (map fst cs)" "(col, c) \<in> set cs" "col \<noteq> Datum"
  shows "col \<in> fst ` set (numeric_cols tn cs) \<longleftrightarrow> any_positive (coerce_numeric tn c)"
proof
  assume "col \<in> fst ` set (numeric_cols tn cs)"
  then obtain c' where c': "(col, c') \<in> set cs" "any_positive (coerce_numeric tn c')"
    unfolding numeric_cols_set by auto
  from assms(1) assms(2) c'(1) have "c' = c" by (meson eq_key_imp_eq_value)
  with c'(2) show "any_positive (coerce_numeric tn c)" by simp
next
  assume "any_positive (coerce_numeric tn c)"
  with assms(2,3) have "(col, coerce_numeric tn c) \<in> set (numeric_cols tn cs)"
    unfolding numeric_cols_set by auto
  then show "col \<in> fst ` set (numeric_cols tn cs)" by force
qed

lemma titles_build_figures:
  "map title (build_figures out) = map fst (filter (\<lambda>(col, ys). col \<noteq> Datum) (series out))"
  by (simp add: build_figures_def case_prod_unfold)

lemma filter_numeric_cols:
  "filter (\<lambda>(col, ys). col \<noteq> Datum) (numeric_cols tn cs) = numeric_cols tn cs"
  by (rule filter_True) (auto dest: numeric_cols_no_datum)

lemma keep_none: "\<forall>b \<in> set m. \<not> b \<Longrightarrow> keep m xs = []"
  by (auto simp: keep_def filter_empty_conv dest: set_zip_leftD)

lemma coerce_keep_none: "\<forall>b \<in> set m. \<not> b \<Longrightarrow> coerce_numeric tn (keep_column m c) = []"
  by (cases c) (simp_all add: keep_none)

lemma names_keep_rows: "map fst (columns (keep_rows m df)) = map fst (columns df)"
  by (simp add: keep_rows_def case_prod_unfold comp_def)

lemma names_normalize:
  "map fst (columns (normalize_frame df)) = map (\<lambda>(n, c). str_strip n) (columns df)"
  by (simp add: normalize_frame_def drop_definition_rows_def names_keep_rows clean_object_columns_def
        strip_column_names_def case_prod_unfold comp_def)

lemma parse_datum_names:
  "parse_datum td df = Inr (dates, df') \<Longrightarrow> map fst (columns df') = map fst (columns df)"
  by (auto simp: parse_datum_def names_keep_rows Let_def split: option.splits)

text \<open>
  C2. Take a frame whose column names are distinct once stripped and that has a \<open>Datum\<close>
  column, and a column other than \<open>Datum\<close> as it stands after the annotation rows and the
  rows without a date are gone. A chart with the name of that column is built if and only
  if one of the coerced values of the column is greater than zero; when no column has such
  a value the run fails and there is no chart at all.
\<close>

theorem chart_iff_positive_value:
  assumes "(parse_datum to_datetime (normalize_frame df) :: 'x error + _) = Inr (dates, df')"
    and "distinct (map (\<lambda>(n, c). str_strip n) (columns df))"
    and "(col, c) \<in> set (columns df')"
    and "col \<noteq> Datum"
  shows "col \<in> set (case (load_frame to_datetime to_numeric df :: 'x error + _) of
                      Inl e \<Rightarrow> [] | Inr out \<Rightarrow> map title (build_figures out))
         \<longleftrightarrow> (\<exists>x. Some x \<in> set (coerce_numeric to_numeric c) \<and> 0 < x)"
proof -
  have d: "distinct (map fst (columns df'))"
    using assms(1,2) by (simp add: parse_datum_names [OF assms(1)] names_normalize)
  have m: "col \<in> fst ` set (numeric_cols to_numeric (columns df'))
             \<longleftrightarrow> any_positive (coerce_numeric to_numeric c)"
    using d assms(3,4) by (rule numeric_cols_member)
  show ?thesis
  proof (cases "numeric_cols to_numeric (columns df') = []")
    case True
    then have "(load_frame to_datetime to_numeric df :: 'x error + _) = Inl DataError"
      by (simp add: load_frame_def assms(1))
    with m True show ?thesis by (simp add: any_positive_iff)
  next
    case False
    then have "(load_frame to_datetime to_numeric df :: 'x error + _) =
        Inr \<lparr>rows = index df', datum = dates, series = numeric_cols to_numeric (columns df')\<rparr>"
      by (simp add: load_frame_def assms(1))
    with m show ?thesis
      by (simp add: titles_build_figures filter_numeric_cols any_positive_iff)
  qed
qed

theorem chart_iff_positive_value_witness:
  "ustr ''Leistung (kW)'' \<in>
     set (case (load_frame sample_to_datetime sample_to_numeric annotated
                  :: unit error + (stamp, rat) table) of
            Inl e \<Rightarrow> [] | Inr out \<Rightarrow> map title (build_figures out))
   \<and> Some (123456 / 100) \<in>
       set (coerce_numeric sample_to_numeric (Object [Str (ustr ''1.234,56''), Str (ustr ''0,00'')]))
   \<and> ustr ''Ertrag'' \<notin>
     set (case (load_frame sample_to_datetime sample_to_numeric annotated
                  :: unit error + (stamp, rat) table) of
            Inl e \<Rightarrow> [] | Inr out \<Rightarrow> map title (build_figures out))"
proof -
  let ?df' = "\<lparr>index = [1, 3],
      columns =
        [(ustr ''Datum'', Object [Str (ustr ''01.01.2024''), Str (ustr ''03.01.2024'')]),
         (ustr ''Leistung (kW)'', Object [Str (ustr ''1.234,56''), Str (ustr ''0,00'')]),
         (ustr ''Status'', Object [Str (ustr ''ok''), Str (ustr ''ok'')]),
         (ustr ''Ertrag'', Object [Str (ustr ''0,00''), NA])]\<rparr> :: rat frame"
  have p: "(parse_datum sample_to_datetime (normalize_frame annotated) :: unit error + _) =
      Inr ([Day 2024 1 1, Day 2024 1 3], ?df')"
    by (simp add: run_defs annotated_def)
  have d: "distinct (map (\<lambda>(n, c). str_strip n) (columns annotated))"
    by (simp add: run_defs annotated_def)
  have m1: "(ustr ''Leistung (kW)'', Object [Str (ustr ''1.234,56''), Str (ustr ''0,00'')])
      \<in> set (columns ?df')"
    by simp
  have m2: "(ustr ''Ertrag'', Object [Str (ustr ''0,00''), NA]) \<in> set (columns ?df')"
    by simp
  have n1: "ustr ''Leistung (kW)'' \<noteq> Datum" and n2: "ustr ''Ertrag'' \<noteq> Datum"
    by (simp_all add: ustr_def Datum_def)
  have v1: "coerce_numeric sample_to_numeric (Object [Str (ustr ''1.234,56''), Str (ustr ''0,00'')])
      = [Some (123456 / 100), Some 0]"
    by (simp add: run_defs)
  have v2: "coerce_numeric sample_to_numeric (Object [Str (ustr ''0,00''), NA]) = [Some 0, None]"
    by (simp add: run_defs)
  have e1: "\<exists>x. Some x \<in> set (coerce_numeric sample_to_numeric
              (Object [Str (ustr ''1.234,56''), Str (ustr ''0,00'')])) \<and> 0 < x"
    unfolding v1 by (rule exI [of _ "123456 / 100"]) simp
  have e2: "\<not> (\<exists>x. Some x \<in> set (coerce_numeric sample_to_numeric
              (Object [Str (ustr ''0,00''), NA])) \<and> 0 < x)"
    unfolding v2 by simp
  from chart_iff_positive_value [OF p d m1 n1, of sample_to_numeric] e1
  have a: "ustr ''Leistung (kW)'' \<in>
     set (case (load_frame sample_to_datetime sample_to_numeric annotated
                  :: unit error + (stamp, rat) table) of
            Inl e \<Rightarrow> [] | Inr out \<Rightarrow> map title (build_figures out))"
    by blast
  from chart_iff_positive_value [OF p d m2 n2, of sample_to_numeric] e2
  have b: "ustr ''Ertrag'' \<notin>
     set (case (load_frame sample_to_datetime sample_to_numeric annotated
                  :: unit error + (stamp, rat) table) of
            Inl e \<Rightarrow> [] | Inr out \<Rightarrow> map title (build_figures out))"
    by blast
  from a b v1 show ?thesis by simp
qed

section \<open>Failures of loading\<close>

text \<open>
  C5. Take a file whose column names, as read, are distinct once stripped. \<open>load_csv\<close>
  fails with the error \<open>Keine Spalten mit Werten > 0,00 gefunden.\<close> if and only if the file
  was read, has a \<open>Datum\<close> column, and no column other than \<open>Datum\<close> has a coerced value
  greater than zero. The witness is Scenario B: the only other column holds \<open>0,00\<close>,
  \<open>-1,00\<close> and an empty cell.
\<close>

theorem data_error_iff_no_positive_column:
  assumes "\<And>df. read_first (\<lambda>enc. read_csv csv_path enc (header_index header_row))
                   [Utf8Sig, Cp1252] None = Inr df
             \<Longrightarrow> distinct (map (\<lambda>(n, c). str_strip n) (columns df))"
  shows "load_csv (read_csv :: 'p \<Rightarrow> encoding \<Rightarrow> int \<Rightarrow> 'x + ('v::{zero,ord}) frame)
           to_datetime to_numeric csv_path header_row = Inl DataError \<longleftrightarrow>
   (\<exists>df dates df'.
      read_first (\<lambda>enc. read_csv csv_path enc (header_index header_row)) [Utf8Sig, Cp1252] None = Inr df
      \<and> (parse_datum to_datetime (normalize_frame df) :: 'x error + _) = Inr (dates, df')
      \<and> (\<forall>(col, c) \<in> set (columns df').
            col \<noteq> Datum \<longrightarrow> \<not> (\<exists>x. Some x \<in> set (coerce_numeric to_numeric c) \<and> 0 < x)))"
  by (auto simp: load_csv_def load_frame_def Let_def numeric_cols_empty any_positive_iff
        parse_datum_def split: sum.splits option.splits if_splits)

theorem data_error_iff_no_positive_column_witness:
  "distinct (map (\<lambda>(n, c). str_strip n) (columns scenario_B))
   \<and> load_csv sample_read_csv sample_to_datetime sample_to_numeric scenario_B 1 =
       (Inl DataError :: unit error + (stamp, rat) table)
   \<and> coerce_numeric sample_to_numeric (Numeric [Some 0, Some (- 1), None])
       = [Some 0, Some (- 1), None]"
proof -
  have r: "read_first (\<lambda>enc. sample_read_csv scenario_B enc (header_index 1)) [Utf8Sig, Cp1252] None
      = Inr scenario_B"
    by (simp add: sample_read_csv_def header_index_def)
  have d: "distinct (map (\<lambda>(n, c). str_strip n) (columns scenario_B))"
    by (simp add: run_defs scenario_B_def)
  have d': "distinct (map (\<lambda>(n, c). str_strip n) (columns df))"
    if "read_first (\<lambda>enc. sample_read_csv scenario_B enc (header_index 1)) [Utf8Sig, Cp1252] None
          = Inr df" for df
    using that r d by simp
  have p: "(parse_datum sample_to_datetime (normalize_frame scenario_B) :: unit error + _) =
      Inr ([Day 2024 1 1, Day 2024 1 2, Day 2024 1 3], scenario_B)"
    by (simp add: run_defs scenario_B_def)
  have v: "coerce_numeric sample_to_numeric (Numeric [Some 0, Some (- 1), None])
       = [Some 0, Some (- 1), None]"
    by simp
  have n: "\<forall>(col, c) \<in> set (columns scenario_B).
      col \<noteq> Datum \<longrightarrow> \<not> (\<exists>x. Some x \<in> set (coerce_numeric sample_to_numeric c) \<and> 0 < x)"
    unfolding scenario_B_def by (simp add: Datum_def)
  from r p n have "\<exists>df dates df'.
      read_first (\<lambda>enc. sample_read_csv scenario_B enc (header_index 1)) [Utf8Sig, Cp1252] None = Inr df
      \<and> (parse_datum sample_to_datetime (normalize_frame df) :: unit error + _) = Inr (dates, df')
      \<and> (\<forall>(col, c) \<in> set (columns df').
            col \<noteq> Datum \<longrightarrow> \<not> (\<exists>x. Some x \<in> set (coerce_numeric sample_to_numeric c) \<and> 0 < x))"
    by blast
  with data_error_iff_no_positive_column
         [where read_csv = sample_read_csv and csv_path = scenario_B and header_row = 1
            and to_datetime = sample_to_datetime and to_numeric = sample_to_numeric, OF d']
  have "load_csv sample_read_csv sample_to_datetime sample_to_numeric scenario_B 1 =
     (Inl DataError :: unit error + (stamp, rat) table)"
    by blast
  with d v show ?thesis by simp
qed

text \<open>
  C1, as the claim states it, fails: in the table \<open>undated\<close> no cell of \<open>Datum\<close> is a date,
  and the run fails with the very error raised when no column has a positive value. The
  program has no error of its own for a table without dated rows.
\<close>

theorem undated_fails_with_data_error:
  "sample_to_datetime (Object [Str (ustr ''kein Datum''), Str (ustr ''unbekannt'')]) = [None, None]
   \<and> load_csv sample_read_csv sample_to_datetime sample_to_numeric undated 1 =
     (Inl DataError :: unit error + (stamp, rat) table)"
  by (simp add: run_defs undated_def)

text \<open>
  C1, amended. When the file is read, its column names are distinct once stripped, it has a
  \<open>Datum\<close> column, and no cell of that column parses as a date, \<open>load_csv\<close> fails with the
  error \<open>Keine Spalten mit Werten > 0,00 gefunden.\<close>, the same failure as for a table in
  which no column has a positive value.
\<close>

theorem no_valid_date_is_data_error:
  assumes "read_first (\<lambda>enc. read_csv csv_path enc (header_index header_row)) [Utf8Sig, Cp1252] None
             = Inr df"
    and "distinct (map (\<lambda>(n, c). str_strip n) (columns df))"
    and "map_of (columns (normalize_frame df)) Datum = Some c"
    and "list_all (\<lambda>d. d = None) (to_datetime c)"
  shows "load_csv read_csv to_datetime to_numeric csv_path header_row = Inl DataError"
proof -
  let ?m = "valid_dates (to_datetime c)"
  have none: "\<forall>b \<in> set ?m. \<not> b"
    using assms(4) by (auto simp: valid_dates_def list_all_iff)
  have "numeric_cols to_numeric (columns (keep_rows ?m (normalize_frame df))) = []"
    unfolding numeric_cols_empty
    by (auto simp: keep_rows_def coerce_keep_none [OF none] any_positive_def)
  moreover have "load_csv read_csv to_datetime to_numeric csv_path header_row =
      load_frame to_datetime to_numeric df"
    by (simp only: load_csv_def assms(1) sum.case)
  ultimately show ?thesis
    by (simp add: load_frame_def parse_datum_def assms(3) Let_def)
qed

theorem no_valid_date_is_data_error_witness:
  "distinct (map (\<lambda>(n, c). str_strip n)
      (columns \<lparr>index = [0, 1],
                columns = [(ustr ''Datum'', Object [NA, Str (ustr ''kein Datum'')]),
                           (ustr ''P (W)'', Numeric [Some (3 :: rat), Some 4])]\<rparr>))
   \<and> sample_to_datetime (Object [NA, Str (ustr ''kein Datum'')]) = [None, None]
   \<and> load_csv sample_read_csv sample_to_datetime sample_to_numeric
       \<lparr>index = [0, 1],
        columns = [(ustr ''Datum'', Object [NA, Str (ustr ''kein Datum'')]),
                   (ustr ''P (W)'', Numeric [Some 3, Some 4])]\<rparr> 1 =
       (Inl DataError :: unit error + (stamp, rat) table)"
proof -
  let ?df = "\<lparr>index = [0, 1],
      columns = [(ustr ''Datum'', Object [NA, Str (ustr ''kein Datum'')]),
                 (ustr ''P (W)'', Numeric [Some 3, Some 4])]\<rparr> :: rat frame"
  have r: "read_first (\<lambda>enc. sample_read_csv ?df enc (header_index 1)) [Utf8Sig, Cp1252] None = Inr ?df"
    by (simp add: sample_read_csv_def header_index_def)
  have d: "distinct (map (\<lambda>(n, c). str_strip n) (columns ?df))"
    by (simp add: run_defs)
  have c: "map_of (columns (normalize_frame ?df)) Datum = Some (Object [NA, Str (ustr ''kein Datum'')])"
    by (simp add: run_defs)
  have v: "sample_to_datetime (Object [NA, Str (ustr ''kein Datum'')]) = [None, None]"
    by (simp add: run_defs)
  then have a: "list_all (\<lambda>d. d = None) (sample_to_datetime (Object [NA, Str (ustr ''kein Datum'')]))"
    by simp
  from no_valid_date_is_data_error
         [where read_csv = sample_read_csv and csv_path = "?df" and header_row = 1 and df = "?df"
            and to_datetime = sample_to_datetime and to_numeric = sample_to_numeric, OF r d c a]
  have "load_csv sample_read_csv sample_to_datetime sample_to_numeric ?df 1 =
       (Inl DataError :: unit error + (stamp, rat) table)" .
  with d v show ?thesis by simp
qed

section \<open>Annotation rows\<close>

lemma contains_iff: "contains p s \<longleftrightarrow> (\<exists>a b. s = a @ p @ b)"
proof (induction s)
  case Nil
  show ?case by auto
next
  case (Cons c s)
  have "(\<exists>a b. c # s = a @ p @ b) \<longleftrightarrow> prefix p (c # s) \<or> (\<exists>a b. s = a @ p @ b)"
  proof
    assume "\<exists>a b. c # s = a @ p @ b"
    then obtain a b where ab: "c # s = a @ p @ b" by blast
    show "prefix p (c # s) \<or> (\<exists>a b. s = a @ p @ b)"
    proof (cases a)
      case Nil
      with ab show ?thesis by (auto simp: prefix_def)
    next
      case (Cons x a')
      with ab have "s = a' @ p @ b" by simp
      then show ?thesis by blast
    qed
  next
    assume "prefix p (c # s) \<or> (\<exists>a b. s = a @ p @ b)"
    then show "\<exists>a b. c # s = a @ p @ b"
    proof
      assume "prefix p (c # s)"
      then obtain b where "c # s = p @ b" by (auto simp: prefix_def)
      then have "c # s = [] @ p @ b" by simp
      then show ?thesis by blast
    next
      assume "\<exists>a b. s = a @ p @ b"
      then obtain a b where "s = a @ p @ b" by blast
      then have "c # s = (c # a) @ p @ b" by simp
      then show ?thesis by blast
    qed
  qed
  with Cons.IH show ?case by simp
qed

lemma str_strip_keeps:
  assumes "\<not> isspace x" "\<not> isspace y"
  shows "\<exists>a' b'. str_strip (a @ (x # m @ [y]) @ b) = a' @ (x # m @ [y]) @ b'"
proof -
  have 1: "dropWhile isspace (a @ (x # m @ [y]) @ b) = dropWhile isspace a @ x # (m @ [y]) @ b"
    using assms(1) by (simp add: dropWhile_append3)
  have "rev (dropWhile isspace a @ x # (m @ [y]) @ b)
      = rev b @ y # (rev m @ x # rev (dropWhile isspace a))"
    by simp
  moreover have "dropWhile isspace (rev b @ y # (rev m @ x # rev (dropWhile isspace a)))
      = dropWhile isspace (rev b) @ y # (rev m @ x # rev (dropWhile isspace a))"
    using assms(2) by (rule dropWhile_append3)
  ultimately have 2: "dropWhile isspace (rev (dropWhile isspace a @ x # (m @ [y]) @ b))
      = dropWhile isspace (rev b) @ y # (rev m @ x # rev (dropWhile isspace a))"
    by (simp only:)
  have "str_strip (a @ (x # m @ [y]) @ b)
      = dropWhile isspace a @ (x # m @ [y]) @ rev (dropWhile isspace (rev b))"
    unfolding str_strip_def 1 2 by simp
  then show ?thesis by blast
qed

lemma marker_shape: "marker = 68 # ustr ''efinition'' @ [58]"
  by (simp add: marker_def ustr_def)

lemma marker_cleaned:
  "filter (\<lambda>c. c \<noteq> 34) (map (\<lambda>c. if c = 8239 \<or> c = 160 \<or> c = 9 then 32 else c) marker) = marker"
  by (simp add: marker_def ustr_def)

lemma clean_text_keeps_marker:
  assumes "contains marker s"
  shows "contains marker (clean_text s)"
proof -
  from assms obtain a b where s: "s = a @ marker @ b"
    unfolding contains_iff by blast
  define f :: "nat \<Rightarrow> nat" where "f = (\<lambda>c. if c = 8239 \<or> c = 160 \<or> c = 9 then 32 else c)"
  define a' where "a' = filter (\<lambda>c. c \<noteq> 34) (map f a)"
  define b' where "b' = filter (\<lambda>c. c \<noteq> 34) (map f b)"
  have m: "filter (\<lambda>c. c \<noteq> 34) (map f marker) = marker"
    unfolding f_def by (rule marker_cleaned)
  have "clean_text s = str_strip (filter (\<lambda>c. c \<noteq> 34) (map f s))"
    unfolding f_def by (rule clean_text_one_pass)
  also have "\<dots> = str_strip (a' @ marker @ b')"
    by (simp add: s a'_def b'_def m)
  finally have ct: "clean_text s = str_strip (a' @ (68 # ustr ''efinition'' @ [58]) @ b')"
    by (simp only: marker_shape)
  have "\<not> isspace 68" "\<not> isspace 58" by (simp_all add: isspace_def)
  from str_strip_keeps [OF this, of a' "ustr ''efinition''" b']
  obtain a'' b'' where "str_strip (a' @ (68 # ustr ''efinition'' @ [58]) @ b')
      = a'' @ (68 # ustr ''efinition'' @ [58]) @ b''"
    by blast
  then have "clean_text s = a'' @ marker @ b''"
    by (simp only: ct marker_shape)
  then show ?thesis unfolding contains_iff by blast
qed

lemma NA_text_no_marker: "\<not> contains marker (astype_str NA)"
  by (simp add: marker_def ustr_def)

lemma empty_no_marker: "\<not> contains marker []"
  by (simp add: marker_def ustr_def)

lemma clean_cell_keeps_marker:
  "contains marker (astype_str c) \<Longrightarrow> contains marker (astype_str (clean_cell c))"
proof (cases c)
  case NA
  assume "contains marker (astype_str c)"
  with NA NA_text_no_marker show ?thesis by simp
next
  case (Str s)
  assume "contains marker (astype_str c)"
  with Str have "contains marker (clean_text s)" by (simp add: clean_text_keeps_marker)
  moreover from this empty_no_marker have "clean_text s \<noteq> []" by auto
  ultimately show ?thesis by (simp add: Str)
qed

lemma keep_Nil [simp]: "keep [] xs = []" "keep m [] = []"
  by (simp_all add: keep_def)

lemma keep_Cons [simp]: "keep (b # m) (x # xs) = (if b then x # keep m xs else keep m xs)"
  by (simp add: keep_def)

lemma keep_map: "keep m (map f xs) = map f (keep m xs)"
proof (induction m arbitrary: xs)
  case Nil
  show ?case by simp
next
  case (Cons b m)
  then show ?case by (cases xs) simp_all
qed

lemma keep_zip: "keep m (zip xs ys) = zip (keep m xs) (keep m ys)"
proof (induction m arbitrary: xs ys)
  case Nil
  show ?case by simp
next
  case (Cons b m)
  show ?case
  proof (cases xs)
    case Nil
    then show ?thesis by simp
  next
    case xs: (Cons x xs')
    show ?thesis
    proof (cases ys)
      case Nil
      then show ?thesis by simp
    next
      case (Cons y ys')
      with xs Cons.IH show ?thesis by simp
    qed
  qed
qed

lemma keep_map2: "keep m (map2 f xs ys) = map2 f (keep m xs) (keep m ys)"
  by (simp add: keep_map keep_zip)

lemma keep_all: "False \<notin> set m \<Longrightarrow> length xs \<le> length m \<Longrightarrow> keep m xs = xs"
proof (induction m arbitrary: xs)
  case Nil
  then show ?case by simp
next
  case (Cons c m)
  then show ?case by (cases xs) auto
qed

lemma length_keep: "length xs = length ys \<Longrightarrow> length (keep m xs) = length (keep m ys)"
proof (induction m arbitrary: xs ys)
  case Nil
  show ?case by simp
next
  case (Cons b m)
  then show ?case by (cases xs; cases ys) simp_all
qed

lemma keep_replicate: "keep m (replicate n x) = replicate (length (keep m (replicate n x))) x"
proof (induction m arbitrary: n)
  case Nil
  show ?case by simp
next
  case (Cons b m)
  then show ?case by (cases n) simp_all
qed

lemma set_keep: "set (keep m xs) \<subseteq> set xs"
  by (auto simp: keep_def dest: set_zip_rightD)

lemma keep_nth:
  "i \<in> set (keep m xs) \<Longrightarrow> \<exists>j. j < length xs \<and> j < length m \<and> m ! j \<and> xs ! j = i"
  by (auto simp: keep_def in_set_zip)

lemma keep_keep:
  assumes "list_all2 (\<longrightarrow>) r m"
  shows "keep (map Not (keep (map Not r) m)) (keep (map Not r) xs) = keep (map Not m) xs"
  using assms
proof (induction r m arbitrary: xs rule: list_all2_induct)
  case Nil
  show ?case by simp
next
  case (Cons a r b m)
  then show ?case by (cases xs) auto
qed

lemma any_axis1_Nil [simp]: "any_axis1 [] n = replicate n False"
  by (simp add: any_axis1_def)

lemma any_axis1_Cons [simp]: "any_axis1 (m # ms) n = map2 (\<or>) m (any_axis1 ms n)"
  by (simp add: any_axis1_def)

lemma length_any_axis1: "\<forall>m \<in> set ms. length m = n \<Longrightarrow> length (any_axis1 ms n) = n"
  by (induction ms) simp_all

lemma any_axis1_nth:
  "\<forall>m \<in> set ms. length m = n \<Longrightarrow> i < n \<Longrightarrow> any_axis1 ms n ! i \<longleftrightarrow> (\<exists>m \<in> set ms. m ! i)"
  by (induction ms) (simp_all add: length_any_axis1)

lemma keep_any_axis1:
  "keep k (any_axis1 ms n) = any_axis1 (map (keep k) ms) (length (keep k (replicate n ())))"
proof (induction ms)
  case Nil
  have "keep k (replicate n False) = replicate (length (keep k (replicate n False))) False"
    by (rule keep_replicate)
  also have "length (keep k (replicate n False)) = length (keep k (replicate n ()))"
    by (rule length_keep) simp
  finally show ?case by simp
next
  case (Cons m ms)
  then show ?case by (simp add: keep_map2)
qed

lemma any_axis1_mono:
  "list_all2 (list_all2 (\<longrightarrow>)) rs ms \<Longrightarrow> list_all2 (\<longrightarrow>) (any_axis1 rs n) (any_axis1 ms n)"
proof (induction rs ms rule: list_all2_induct)
  case Nil
  show ?case by (simp add: list_all2_conv_all_nth)
next
  case (Cons r rs m ms)
  then show ?case
    by (auto simp: list_all2_conv_all_nth)
qed

lemma length_column_mask: "length (column_mask c) = col_length c"
  by (cases c) simp_all

lemma column_mask_keep: "column_mask (keep_column k c) = keep k (column_mask c)"
  by (cases c) (simp_all add: keep_map)

lemma clean_column_keep: "clean_column (keep_column k c) = keep_column k (clean_column c)"
  by (cases c) (simp_all add: keep_map)

lemma col_length_keep:
  "col_length c = length idx \<Longrightarrow> col_length (keep_column k c) = length (keep k idx)"
  by (cases c) (auto intro: length_keep)

lemma col_length_clean: "col_length (clean_column c) = col_length c"
  by (cases c) simp_all

lemma wf_frame_iff: "wf_frame df \<longleftrightarrow> (\<forall>(n, c) \<in> set (columns df). col_length c = length (index df))"
  by (simp add: wf_frame_def list_all_iff)

lemma wf_keep_rows: "wf_frame df \<Longrightarrow> wf_frame (keep_rows k df)"
  by (auto simp: wf_frame_iff keep_rows_def col_length_keep)

lemma wf_prepared: "wf_frame df \<Longrightarrow> wf_frame (clean_object_columns (strip_column_names df))"
  by (auto simp: wf_frame_iff clean_object_columns_def strip_column_names_def col_length_clean)

lemma index_prepared: "index (clean_object_columns (strip_column_names df)) = index df"
  by (simp add: clean_object_columns_def strip_column_names_def)

lemma prepared_keep_rows:
  "clean_object_columns (strip_column_names (keep_rows k df)) =
     keep_rows k (clean_object_columns (strip_column_names df))"
  by (simp add: clean_object_columns_def strip_column_names_def keep_rows_def
        case_prod_unfold comp_def clean_column_keep)

lemma masks_length:
  "wf_frame d \<Longrightarrow> \<forall>m \<in> set (map (\<lambda>(n, c). column_mask c) (columns d)). length m = length (index d)"
  by (auto simp: wf_frame_iff length_column_mask)

lemma definition_rows_keep:
  assumes "wf_frame d"
  shows "definition_rows (keep_rows k d) = keep k (definition_rows d)"
proof -
  have l: "length (keep k (replicate (length (index d)) ())) = length (keep k (index d))"
    by (rule length_keep) simp
  have "map (\<lambda>(n, c). column_mask c) (columns (keep_rows k d))
      = map (keep k) (map (\<lambda>(n, c). column_mask c) (columns d))"
    by (simp add: keep_rows_def case_prod_unfold comp_def column_mask_keep)
  then show ?thesis
    by (simp add: definition_rows_def keep_any_axis1 l) (simp add: keep_rows_def)
qed

lemma any_axis1_no_True:
  "\<forall>m \<in> set ms. True \<notin> set m \<Longrightarrow> True \<notin> set (any_axis1 ms n)"
proof (induction ms)
  case Nil
  show ?case by simp
next
  case (Cons m ms)
  then have "True \<notin> set m" "True \<notin> set (any_axis1 ms n)" by simp_all
  then show ?case by (auto simp: set_zip) (metis nth_mem)+
qed

lemma length_definition_rows: "wf_frame d \<Longrightarrow> length (definition_rows d) = length (index d)"
  unfolding definition_rows_def by (rule length_any_axis1) (rule masks_length)

lemma keep_column_all:
  "False \<notin> set k \<Longrightarrow> col_length c \<le> length k \<Longrightarrow> keep_column k c = c"
  by (cases c) (simp_all add: keep_all)

lemma keep_rows_all:
  assumes "wf_frame d" "False \<notin> set k" "length k = length (index d)"
  shows "keep_rows k d = d"
proof -
  have "map (\<lambda>(n, c). (n, keep_column k c)) (columns d) = columns d"
  proof (rule map_idI)
    fix p assume "p \<in> set (columns d)"
    with assms(1,3) have "col_length (snd p) \<le> length k"
      by (auto simp: wf_frame_iff)
    with assms(2) show "(case p of (n, c) \<Rightarrow> (n, keep_column k c)) = p"
      by (simp add: case_prod_unfold keep_column_all)
  qed
  with assms(2,3) show ?thesis
    by (simp add: keep_rows_def keep_all)
qed

lemma drop_definition_rows_wf:
  assumes "wf_frame d"
  shows "drop_definition_rows d = keep_rows (map Not (definition_rows d)) d"
proof (cases "list_ex (\<lambda>(n, c). list_ex id (column_mask c)) (columns d)")
  case True
  then show ?thesis by (simp add: drop_definition_rows_def)
next
  case False
  then have "\<forall>m \<in> set (map (\<lambda>(n, c). column_mask c) (columns d)). True \<notin> set m"
    by (auto simp: list_ex_iff)
  then have "True \<notin> set (definition_rows d)"
    unfolding definition_rows_def by (rule any_axis1_no_True)
  then have "False \<notin> set (map Not (definition_rows d))" by auto
  moreover have "length (map Not (definition_rows d)) = length (index d)"
    using assms by (simp add: length_definition_rows)
  ultimately have "keep_rows (map Not (definition_rows d)) d = d"
    using assms by (intro keep_rows_all)
  with False show ?thesis by (simp add: drop_definition_rows_def)
qed

lemma column_mask_mono: "list_all2 (\<longrightarrow>) (column_mask c) (column_mask (clean_column c))"
  by (cases c) (simp_all add: list_all2_conv_all_nth clean_cell_keeps_marker)

lemma definition_rows_mono:
  "list_all2 (\<longrightarrow>) (definition_rows df)
     (definition_rows (clean_object_columns (strip_column_names df)))"
proof -
  have "list_all2 (list_all2 (\<longrightarrow>))
      (map (\<lambda>(n, c). column_mask c) (columns df))
      (map (\<lambda>(n, c). column_mask c) (columns (clean_object_columns (strip_column_names df))))"
    by (simp add: clean_object_columns_def strip_column_names_def list_all2_map1 list_all2_map2
          case_prod_unfold list_all2_same column_mask_mono)
  then show ?thesis
    by (simp add: definition_rows_def index_prepared any_axis1_mono)
qed

lemma keep_column_keep:
  "list_all2 (\<longrightarrow>) r m \<Longrightarrow>
     keep_column (map Not (keep (map Not r) m)) (keep_column (map Not r) c) = keep_column (map Not m) c"
  by (cases c) (simp_all add: keep_keep)

lemma keep_rows_keep:
  "list_all2 (\<longrightarrow>) r m \<Longrightarrow>
     keep_rows (map Not (keep (map Not r) m)) (keep_rows (map Not r) d) = keep_rows (map Not m) d"
  by (simp add: keep_rows_def keep_keep keep_column_keep case_prod_unfold comp_def)

lemma normalize_without_marker_rows:
  assumes "wf_frame df"
  shows "normalize_frame (keep_rows (map Not (definition_rows df)) df) = normalize_frame df"
proof -
  define d where "d = clean_object_columns (strip_column_names df)"
  define r where "r = definition_rows df"
  define m where "m = definition_rows d"
  have wd: "wf_frame d" unfolding d_def using assms by (rule wf_prepared)
  have rm: "list_all2 (\<longrightarrow>) r m" unfolding r_def m_def d_def by (rule definition_rows_mono)
  have "normalize_frame (keep_rows (map Not r) df) = drop_definition_rows (keep_rows (map Not r) d)"
    by (simp add: normalize_frame_def prepared_keep_rows d_def)
  also have "\<dots> = keep_rows (map Not (definition_rows (keep_rows (map Not r) d))) (keep_rows (map Not r) d)"
    by (rule drop_definition_rows_wf) (rule wf_keep_rows [OF wd])
  also have "\<dots> = keep_rows (map Not (keep (map Not r) m)) (keep_rows (map Not r) d)"
    by (simp add: definition_rows_keep [OF wd] m_def)
  also have "\<dots> = keep_rows (map Not m) d"
    using rm by (rule keep_rows_keep)
  also have "\<dots> = drop_definition_rows d"
    unfolding m_def by (rule drop_definition_rows_wf [OF wd, symmetric])
  also have "\<dots> = normalize_frame df"
    by (simp add: normalize_frame_def d_def)
  finally show ?thesis by (simp add: r_def)
qed

lemma definition_rows_nth:
  assumes "wf_frame df" "i < length (index df)"
  shows "definition_rows df ! i \<longleftrightarrow>
           (\<exists>name cs. (name, Object cs) \<in> set (columns df) \<and> contains marker (astype_str (cs ! i)))"
proof -
  have "definition_rows df ! i \<longleftrightarrow> (\<exists>m \<in> set (map (\<lambda>(n, c). column_mask c) (columns df)). m ! i)"
    unfolding definition_rows_def using masks_length [OF assms(1)] assms(2)
    by (rule any_axis1_nth)
  also have "\<dots> \<longleftrightarrow> (\<exists>(name, c) \<in> set (columns df). column_mask c ! i)"
    by (auto simp: case_prod_unfold)
  also have "\<dots> \<longleftrightarrow>
      (\<exists>name cs. (name, Object cs) \<in> set (columns df) \<and> contains marker (astype_str (cs ! i)))"
  proof
    assume "\<exists>(name, c) \<in> set (columns df). column_mask c ! i"
    then obtain name c where nc: "(name, c) \<in> set (columns df)" "column_mask c ! i" by auto
    from nc(1) assms have len: "i < col_length c" by (auto simp: wf_frame_iff)
    show "\<exists>name cs. (name, Object cs) \<in> set (columns df) \<and> contains marker (astype_str (cs ! i))"
    proof (cases c)
      case (Numeric xs)
      with nc(2) len show ?thesis by simp
    next
      case (Object cs)
      with nc len show ?thesis by auto
    qed
  next
    assume "\<exists>name cs. (name, Object cs) \<in> set (columns df) \<and> contains marker (astype_str (cs ! i))"
    then obtain name cs where nc: "(name, Object cs) \<in> set (columns df)"
      "contains marker (astype_str (cs ! i))" by blast
    from nc(1) assms have "i < length cs" by (auto simp: wf_frame_iff)
    with nc(2) have "column_mask (Object cs) ! i" by simp
    with nc(1) show "\<exists>(name, c) \<in> set (columns df). column_mask c ! i" by blast
  qed
  finally show ?thesis .
qed

lemma index_normalize:
  assumes "wf_frame df"
  shows "index (normalize_frame df) =
     keep (map Not (definition_rows (clean_object_columns (strip_column_names df)))) (index df)"
proof -
  have "normalize_frame df = keep_rows (map Not (definition_rows (clean_object_columns (strip_column_names df))))
      (clean_object_columns (strip_column_names df))"
    unfolding normalize_frame_def by (rule drop_definition_rows_wf) (rule wf_prepared [OF assms])
  then show ?thesis by (simp add: keep_rows_def index_prepared)
qed

lemma rows_of_loaded:
  assumes "(load_frame td tn df :: 'x error + _) = Inr out"
  shows "set (rows out) \<subseteq> set (index (normalize_frame df))"
proof -
  from assms obtain dates df'
    where p: "(parse_datum td (normalize_frame df) :: 'x error + _) = Inr (dates, df')"
    and r: "rows out = index df'"
    by (auto simp: load_frame_def Let_def split: sum.splits if_splits)
  from p have "set (index df') \<subseteq> set (index (normalize_frame df))"
    by (auto simp: parse_datum_def Let_def keep_rows_def split: option.splits
          dest: subsetD [OF set_keep])
  with r show ?thesis by simp
qed

lemma loaded_row_unmarked:
  assumes wf: "wf_frame df" and idx: "index df = [0..<n]"
    and ld: "load_frame td tn df = Inr out" and i: "i \<in> set (rows out)"
  shows "i < n \<and> \<not> definition_rows df ! i"
proof -
  define m where "m = definition_rows (clean_object_columns (strip_column_names df))"
  from rows_of_loaded [OF ld] i have "i \<in> set (index (normalize_frame df))" by blast
  then have "i \<in> set (keep (map Not m) [0..<n])"
    by (simp add: index_normalize [OF wf] idx m_def)
  then obtain j where j: "j < length [0..<n]" "j < length (map Not m)" "map Not m ! j" "[0..<n] ! j = i"
    by (blast dest: keep_nth)
  then have ij: "i = j" "i < n" by simp_all
  with j have nm: "\<not> m ! i" by simp
  have rm: "list_all2 (\<longrightarrow>) (definition_rows df) m"
    unfolding m_def by (rule definition_rows_mono)
  have "length (definition_rows df) = n"
    using length_definition_rows [OF wf] idx by simp
  with rm ij have "definition_rows df ! i \<longrightarrow> m ! i"
    by (simp add: list_all2_nthD)
  with nm ij show ?thesis by blast
qed

text \<open>
  C8. Take a frame as \<open>read_csv\<close> returns it: every column as long as the index, rows
  labelled \<open>0\<close> to \<open>n - 1\<close>. No row of the loaded table has the marker \<open>Definition:\<close> in a
  text cell of the frame that was read. \<open>definition_rows\<close> of that frame marks exactly the
  rows with the marker in some cell, and loading the frame without those rows gives the
  same result, error or table: they have no part in which columns survive.
\<close>

theorem annotation_rows_excluded:
  assumes "wf_frame df" and "index df = [0..<n]"
  shows "(\<forall>out. load_frame to_datetime to_numeric df = Inr out \<longrightarrow>
            (\<forall>i \<in> set (rows out). i < n \<and>
               (\<forall>name cs s. (name, Object cs) \<in> set (columns df) \<and> cs ! i = Str s
                    \<longrightarrow> \<not> contains marker s)))
       \<and> (\<forall>i < n. definition_rows df ! i \<longleftrightarrow>
            (\<exists>name cs. (name, Object cs) \<in> set (columns df) \<and> contains marker (astype_str (cs ! i))))
       \<and> load_frame to_datetime to_numeric (keep_rows (map Not (definition_rows df)) df)
           = load_frame to_datetime to_numeric df"
proof (intro conjI allI impI ballI)
  fix out i
  assume ld: "load_frame to_datetime to_numeric df = Inr out" and i: "i \<in> set (rows out)"
  from loaded_row_unmarked [OF assms ld i] show "i < n" by blast
next
  fix out i name cs s
  assume ld: "load_frame to_datetime to_numeric df = Inr out" and i: "i \<in> set (rows out)"
    and c: "(name, Object cs) \<in> set (columns df) \<and> cs ! i = Str s"
  from loaded_row_unmarked [OF assms ld i] have "i < length (index df)" "\<not> definition_rows df ! i"
    using assms(2) by simp_all
  with definition_rows_nth [OF assms(1), of i] c
  have "\<not> contains marker (astype_str (cs ! i))" by blast
  with c show "\<not> contains marker s" by simp
next
  fix i assume "i < n"
  then have "i < length (index df)" using assms(2) by simp
  then show "definition_rows df ! i \<longleftrightarrow>
      (\<exists>name cs. (name, Object cs) \<in> set (columns df) \<and> contains marker (astype_str (cs ! i)))"
    by (rule definition_rows_nth [OF assms(1)])
next
  show "load_frame to_datetime to_numeric (keep_rows (map Not (definition_rows df)) df)
           = load_frame to_datetime to_numeric df"
    by (simp add: load_frame_def normalize_without_marker_rows [OF assms(1)])
qed

theorem annotation_rows_excluded_witness:
  "wf_frame annotated \<and> index annotated = [0..<4]
   \<and> definition_rows annotated = [True, False, False, False]
   \<and> (load_frame sample_to_datetime sample_to_numeric annotated
        :: unit error + (stamp, rat) table)
       = Inr \<lparr>rows = [1, 3], datum = [Day 2024 1 1, Day 2024 1 3],
              series = [(ustr ''Leistung (kW)'', [Some (123456 / 100), Some 0])]\<rparr>
   \<and> \<not> contains marker (ustr ''01.01.2024'') \<and> \<not> contains marker (ustr ''1.234,56'')
   \<and> (load_frame sample_to_datetime sample_to_numeric
         (keep_rows (map Not (definition_rows annotated)) annotated)
        :: unit error + (stamp, rat) table)
       = load_frame sample_to_datetime sample_to_numeric annotated"
proof -
  have wf: "wf_frame annotated"
    by (simp add: wf_frame_def annotated_def)
  have idx: "index annotated = [0..<4]"
    by (simp add: annotated_def upt_rec)
  have dr: "definition_rows annotated = [True, False, False, False]"
    by (simp add: definition_rows_def annotated_def marker_def ustr_def)
  have ld: "(load_frame sample_to_datetime sample_to_numeric annotated
        :: unit error + (stamp, rat) table)
       = Inr \<lparr>rows = [1, 3], datum = [Day 2024 1 1, Day 2024 1 3],
              series = [(ustr ''Leistung (kW)'', [Some (123456 / 100), Some 0])]\<rparr>"
    by (simp add: run_defs annotated_def)
  have c1: "(ustr ''Datum'', Object [Str (ustr ''Definition: Messwerte''), Str (ustr ''01.01.2024''),
                    Str (ustr ''kein Datum''), Str (ustr ''03.01.2024'')]) \<in> set (columns annotated)"
    by (simp add: annotated_def)
  have c2: "(ustr ''Leistung (kW)  '',
            Object [NA, Str (ustr ''1.234,56''), Str (ustr ''5,00''), Str (ustr ''0,00'')])
      \<in> set (columns annotated)"
    by (simp add: annotated_def)
  note th = annotation_rows_excluded [OF wf idx, of sample_to_datetime sample_to_numeric]
  from th ld have r: "\<forall>i \<in> set [1, 3 :: nat]. i < 4 \<and>
               (\<forall>name cs s. (name, Object cs) \<in> set (columns annotated) \<and> cs ! i = Str s
                    \<longrightarrow> \<not> contains marker s)"
    by (metis (no_types, lifting) table.select_convs(1))
  from r c1 have m1: "\<not> contains marker (ustr ''01.01.2024'')"
    by (metis list.set_intros(1) nth_Cons_0 nth_Cons_Suc One_nat_def)
  from r c2 have m2: "\<not> contains marker (ustr ''1.234,56'')"
    by (metis list.set_intros(1) nth_Cons_0 nth_Cons_Suc One_nat_def)
  from th have eq: "(load_frame sample_to_datetime sample_to_numeric
         (keep_rows (map Not (definition_rows annotated)) annotated)
        :: unit error + (stamp, rat) table)
       = load_frame sample_to_datetime sample_to_numeric annotated"
    by blast
  from wf idx dr ld m1 m2 eq show ?thesis by blast
qed

end
